theory Spec2Isabelle
  imports Main "HOL-Library.Word"
begin

unbundle bit_operations_syntax

section \<open>Data model\<close>

type_synonym u8 = "8 word"
type_synonym u32 = "32 word"

text \<open>
  A BIP-32 path is passed in C as a pointer \<open>bip32_path\<close> and a length
  \<open>bip32_path_len\<close>. The model passes one list: its elements are the components
  \<open>bip32_path[0] .. bip32_path[bip32_path_len - 1]\<close> and its length is
  \<open>bip32_path_len\<close>. The same holds for \<open>coin_types\<close> and
  \<open>coin_types_length\<close>.
\<close>

text \<open>\<open>#define H 0x80000000ul\<close>: the hardened flag, the top bit of a component.\<close>

definition H :: u32 where
  "H = 0x80000000"

text \<open>
  A read \<open>bip32_path[i]\<close>. The C code does not check the index; the model does, and
  returns \<open>None\<close> for a read at or beyond \<open>bip32_path_len\<close>, so that such a
  read is visible in the result of every function that performs it.
\<close>

definition path_at :: "u32 list \<Rightarrow> nat \<Rightarrow> u32 option" where
  "path_at bip32_path i = (if i < length bip32_path then Some (bip32_path ! i) else None)"

text \<open>The comparison \<open>bip32_path[i] == v\<close>.\<close>

definition path_eq :: "u32 list \<Rightarrow> nat \<Rightarrow> u32 \<Rightarrow> bool option" where
  "path_eq bip32_path i v = map_option (\<lambda>x. x = v) (path_at bip32_path i)"

text \<open>
  C's \<open>a && b\<close> on operands that may read the path: \<open>b\<close> is evaluated only when
  \<open>a\<close> is true.
\<close>

definition and_then :: "bool option \<Rightarrow> bool option \<Rightarrow> bool option" where
  "and_then a b = (case a of None \<Rightarrow> None | Some False \<Rightarrow> Some False | Some True \<Rightarrow> b)"

section \<open>The path policy: \<open>is_path_safe_for_pubkey_export\<close>\<close>

text \<open>The three conditions of the \<open>if / else if / else if\<close> chain of lines 38 to 48.\<close>

definition is_qtum_electrum_path :: "u32 list \<Rightarrow> bool option" where
  "is_qtum_electrum_path bip32_path =
     and_then (Some (length bip32_path = 4))
    (and_then (path_eq bip32_path 0 (44 XOR H))
    (and_then (path_eq bip32_path 1 (88 XOR H))
    (and_then (path_eq bip32_path 2 (4541509 XOR H))
              (path_eq bip32_path 3 (1112098098 XOR H)))))"

definition is_0h_45342h_path :: "u32 list \<Rightarrow> bool option" where
  "is_0h_45342h_path bip32_path =
     and_then (Some (length bip32_path = 2))
    (and_then (path_eq bip32_path 0 (0 XOR H))
              (path_eq bip32_path 1 (45342 XOR H)))"

definition is_20698h_3053h_12648430h_path :: "u32 list \<Rightarrow> bool option" where
  "is_20698h_3053h_12648430h_path bip32_path =
     and_then (Some (length bip32_path = 3))
    (and_then (path_eq bip32_path 0 (20698 XOR H))
    (and_then (path_eq bip32_path 1 (3053 XOR H))
              (path_eq bip32_path 2 (12648430 XOR H))))"

text \<open>
  The \<open>switch (purpose)\<close> of lines 57 to 74. \<open>Some n\<close> is the value given to
  \<open>hardened_der_len\<close>; \<open>None\<close> is the \<open>default:\<close> branch, where the policy
  returns false.
\<close>

definition hardened_der_len :: "u32 \<Rightarrow> nat option" where
  "hardened_der_len purpose =
     (if purpose = 44 \<or> purpose = 49 \<or> purpose = 84 \<or> purpose = 86 then Some 3
      else if purpose = 45 then Some 3
      else if purpose = 48 then Some 4
      else None)"

text \<open>
  The loop of lines 82 to 86, from index \<open>i\<close> up to \<open>n\<close>. \<open>Some False\<close>: the
  loop has executed \<open>return false\<close>; \<open>Some True\<close>: it has run to its end.
\<close>

function steps_hardened :: "u32 list \<Rightarrow> nat \<Rightarrow> nat \<Rightarrow> bool option" where
  "steps_hardened bip32_path i n =
     (if i < n then
        (case path_at bip32_path i of
           None \<Rightarrow> None
         | Some x \<Rightarrow> if x < 0x80000000 then Some False
                     else steps_hardened bip32_path (i + 1) n)
      else Some True)"
  by pat_completeness auto
termination
  by (relation "measure (\<lambda>(p, i, n). n - i)") auto

declare steps_hardened.simps [simp del]

text \<open>The loop of lines 88 to 92, with the same reading of the result.\<close>

function steps_unhardened :: "u32 list \<Rightarrow> nat \<Rightarrow> nat \<Rightarrow> bool option" where
  "steps_unhardened bip32_path i n =
     (if i < n then
        (case path_at bip32_path i of
           None \<Rightarrow> None
         | Some x \<Rightarrow> if x \<ge> 0x80000000 then Some False
                     else steps_unhardened bip32_path (i + 1) n)
      else Some True)"
  by pat_completeness auto
termination
  by (relation "measure (\<lambda>(p, i, n). n - i)") auto

declare steps_unhardened.simps [simp del]

text \<open>
  The loop of lines 96 to 100 over \<open>coin_types\<close>; the third argument is the variable
  \<open>coin_type_found\<close>. The loop has no \<open>break\<close>.
\<close>

fun find_coin_type :: "u32 \<Rightarrow> u32 list \<Rightarrow> bool \<Rightarrow> bool" where
  "find_coin_type coin_type [] coin_type_found = coin_type_found"
| "find_coin_type coin_type (c # coin_types) coin_type_found =
     find_coin_type coin_type coin_types (if coin_type = c then True else coin_type_found)"

text \<open>
  Lines 113 to 119: the script type of a BIP-48 path. \<open>Some False\<close>: \<open>return false\<close>
  has been executed.
\<close>

definition script_type_ok :: "u32 list \<Rightarrow> u32 \<Rightarrow> bool option" where
  "script_type_ok bip32_path purpose =
     (if purpose = 48 then
        (case path_at bip32_path 3 of
           None \<Rightarrow> None
         | Some x \<Rightarrow>
             (let script_type = x AND 0x7FFFFFFF
              in if script_type \<noteq> 1 \<and> script_type \<noteq> 2 then Some False else Some True))
      else Some True)"

text \<open>
  Lines 76 to 121, once \<open>purpose\<close> and \<open>hardened_der_len\<close> are known. The macro
  \<open>MAX_BIP44_ACCOUNT_RECOMMENDED\<close> is defined in a header that is not part of the
  sources at hand; its value is the first parameter, \<open>max_account\<close>, a natural number
  compared with the unsigned value of \<open>account\<close>.
\<close>

definition is_path_safe_tail :: "nat \<Rightarrow> u32 list \<Rightarrow> u32 list \<Rightarrow> u32 \<Rightarrow> nat \<Rightarrow> bool option" where
  "is_path_safe_tail max_account bip32_path coin_types purpose der_len =
     (if length bip32_path < der_len then Some False
      else case steps_hardened bip32_path 0 der_len of
        None \<Rightarrow> None
      | Some False \<Rightarrow> Some False
      | Some True \<Rightarrow>
         (case steps_unhardened bip32_path der_len (length bip32_path) of
            None \<Rightarrow> None
          | Some False \<Rightarrow> Some False
          | Some True \<Rightarrow>
             (case path_at bip32_path 1 of
                None \<Rightarrow> None
              | Some c \<Rightarrow>
                 (let coin_type = c AND 0x7FFFFFFF;
                      coin_type_found = find_coin_type coin_type coin_types False
                  in if \<not> coin_type_found then Some False
                     else case path_at bip32_path 2 of
                       None \<Rightarrow> None
                     | Some a \<Rightarrow>
                        (let account = a AND 0x7FFFFFFF
                         in if unat account > max_account then Some False
                            else script_type_ok bip32_path purpose)))))"

text \<open>
  The whole function. \<open>Some b\<close>: the function returns \<open>b\<close>; \<open>None\<close>: it has read
  a component at an index that is not below \<open>bip32_path_len\<close>.
\<close>

definition is_path_safe_for_pubkey_export :: "nat \<Rightarrow> u32 list \<Rightarrow> u32 list \<Rightarrow> bool option" where
  "is_path_safe_for_pubkey_export max_account bip32_path coin_types =
     (case is_qtum_electrum_path bip32_path of
        None \<Rightarrow> None
      | Some True \<Rightarrow> Some True
      | Some False \<Rightarrow>
     (case is_0h_45342h_path bip32_path of
        None \<Rightarrow> None
      | Some True \<Rightarrow> Some True
      | Some False \<Rightarrow>
     (case is_20698h_3053h_12648430h_path bip32_path of
        None \<Rightarrow> None
      | Some True \<Rightarrow> Some True
      | Some False \<Rightarrow>
         (if length bip32_path < 3 then Some False
          else case path_at bip32_path 0 of
            None \<Rightarrow> None
          | Some p0 \<Rightarrow>
             (let purpose = p0 AND 0x7FFFFFFF
              in case hardened_der_len purpose of
                   None \<Rightarrow> Some False
                 | Some der_len \<Rightarrow>
                     is_path_safe_tail max_account bip32_path coin_types purpose der_len)))))"

text \<open>
  The three legacy paths as the specification writes them,
  \<open>m/44'/88'/4541509'/1112098098'\<close>, \<open>m/0'/45342'\<close> and \<open>m/20698'/3053'/12648430'\<close>,
  a hardened component \<open>n'\<close> being \<open>n + 2^31\<close>.
\<close>

definition hardened_index :: "nat \<Rightarrow> u32" where
  "hardened_index n = of_nat (n + 2 ^ 31)"

definition legacy_exception_paths :: "u32 list list" where
  "legacy_exception_paths =
     [ [hardened_index 44, hardened_index 88, hardened_index 4541509, hardened_index 1112098098],
       [hardened_index 0, hardened_index 45342],
       [hardened_index 20698, hardened_index 3053, hardened_index 12648430] ]"

section \<open>The request handler: \<open>handler_get_extended_pubkey\<close>\<close>

text \<open>The status words that the handler sends. Their numeric values play no role.\<close>

datatype status_word =
    SW_SECURITY_STATUS_NOT_SATISFIED
  | SW_WRONG_DATA_LENGTH
  | SW_INCORRECT_DATA
  | SW_NOT_SUPPORTED
  | SW_BAD_STATE
  | SW_DENY
  | SW_OK

text \<open>
  What one call of the handler does to the outside, in the order in which it does it:
  \<^item> \<open>Derive path version\<close>: a call of \<open>get_serialized_extended_pubkey_at_path\<close>;
  \<^item> \<open>Format path\<close>: a call of \<open>bip32_path_format\<close>;
  \<^item> \<open>Display path_str is_unsafe key\<close>: a call of \<open>ui_display_pubkey\<close>;
  \<^item> \<open>Send data sw\<close>: \<open>SEND_RESPONSE(dc, data, strlen(data), sw)\<close>, and
    \<open>SEND_SW(dc, sw)\<close> with no data.
\<close>

datatype event =
    Derive "u32 list" u32
  | Format "u32 list"
  | Display string bool string
  | Send string status_word

fun is_Send :: "event \<Rightarrow> bool" where
  "is_Send (Send data sw) = True"
| "is_Send _ = False"

text \<open>
  The dispatcher context: the unread bytes of the request, and the events so far.
\<close>

record dispatcher_context =
  read_buffer :: "u8 list"
  events :: "event list"

text \<open>
  The macros that the handler uses and that are defined in headers outside of the
  sources at hand. They are parameters of the model.
\<close>

record constants =
  MAX_BIP32_PATH_STEPS :: nat
  MAX_BIP44_ACCOUNT_RECOMMENDED :: nat
  BIP44_COIN_TYPE :: u32
  BIP44_COIN_TYPE_2 :: u32
  BIP32_PUBKEY_VERSION :: u32

text \<open>
  The collaborators that the handler calls and that are outside of the sources at hand:
  the lock state (\<open>True\<close> when \<open>os_global_pin_is_validated()\<close> returns
  \<open>BOLOS_UX_OK\<close>), the key derivation (\<open>None\<close> when it returns \<open>-1\<close>, else the
  string left in \<open>serialized_pubkey_str\<close>), the path formatter (the string left in
  \<open>path_str\<close>) and the confirmation screen (\<open>True\<close> when the user approves). The
  handler calls each of them at most once, so a function of the arguments gives every
  behaviour they can show within one call.
\<close>

record collaborators =
  os_global_pin_is_validated :: bool
  get_serialized_extended_pubkey_at_path :: "u32 list \<Rightarrow> u32 \<Rightarrow> string option"
  bip32_path_format :: "u32 list \<Rightarrow> string"
  ui_display_pubkey :: "string \<Rightarrow> bool \<Rightarrow> string \<Rightarrow> bool"

definition SEND_SW :: "dispatcher_context \<Rightarrow> status_word \<Rightarrow> dispatcher_context" where
  "SEND_SW dc sw = dc\<lparr>events := events dc @ [Send [] sw]\<rparr>"

definition SEND_RESPONSE :: "dispatcher_context \<Rightarrow> string \<Rightarrow> status_word \<Rightarrow> dispatcher_context" where
  "SEND_RESPONSE dc data sw = dc\<lparr>events := events dc @ [Send data sw]\<rparr>"

definition record_call :: "dispatcher_context \<Rightarrow> event \<Rightarrow> dispatcher_context" where
  "record_call dc e = dc\<lparr>events := events dc @ [e]\<rparr>"

text \<open>
  Modelled from the spec: \<open>buffer_read_u8\<close>, which is not part of the sources at hand.
  The wire format is \<open>display:u8\<close>, \<open>pathLength:u8\<close>, then the components; a read from
  a buffer with no byte left fails and leaves the buffer as it is.
\<close>

definition buffer_read_u8 :: "u8 list \<Rightarrow> (u8 \<times> u8 list) option" where
  "buffer_read_u8 buf = (case buf of [] \<Rightarrow> None | b # rest \<Rightarrow> Some (b, rest))"

text \<open>Four bytes as one big-endian 32-bit value.\<close>

definition read_u32_be :: "u8 \<Rightarrow> u8 \<Rightarrow> u8 \<Rightarrow> u8 \<Rightarrow> u32" where
  "read_u32_be a b c d =
     push_bit 24 (ucast a) OR push_bit 16 (ucast b) OR push_bit 8 (ucast c) OR ucast d"

fun be_u32s :: "u8 list \<Rightarrow> u32 list" where
  "be_u32s (a # b # c # d # rest) = read_u32_be a b c d # be_u32s rest"
| "be_u32s _ = []"

text \<open>
  Modelled from the spec: \<open>buffer_read_bip32_path\<close>, which is not part of the sources at
  hand. It reads exactly \<open>n\<close> big-endian 32-bit components; on a body that ends before
  that it fails.
\<close>

definition buffer_read_bip32_path :: "u8 list \<Rightarrow> nat \<Rightarrow> (u32 list \<times> u8 list) option" where
  "buffer_read_bip32_path buf n =
     (if length buf < 4 * n then None
      else Some (be_u32s (take (4 * n) buf), drop (4 * n) buf))"

text \<open>Line 154: the two coin types that the handler passes to the policy.\<close>

definition coin_types_of :: "constants \<Rightarrow> u32 list" where
  "coin_types_of K = [BIP44_COIN_TYPE K, BIP44_COIN_TYPE_2 K]"

text \<open>
  Lines 135 to 152: the decoding of the request from the unread bytes. \<open>Inl (sw, buf)\<close>:
  an exit with \<open>SEND_SW(dc, sw)\<close>, the buffer being \<open>buf\<close> at that point;
  \<open>Inr (display, bip32_path, buf)\<close>: the decoded flag and path, and the buffer after
  them.
\<close>

definition decode_request ::
  "constants \<Rightarrow> u8 list \<Rightarrow> (status_word \<times> u8 list) + (u8 \<times> u32 list \<times> u8 list)" where
  "decode_request K buf =
     (case buffer_read_u8 buf of
        None \<Rightarrow> Inl (SW_WRONG_DATA_LENGTH, buf)
      | Some (display, buf1) \<Rightarrow>
         (case buffer_read_u8 buf1 of
            None \<Rightarrow> Inl (SW_WRONG_DATA_LENGTH, buf1)
          | Some (bip32_path_len, buf2) \<Rightarrow>
             (if display > 1 \<or> unat bip32_path_len > MAX_BIP32_PATH_STEPS K
              then Inl (SW_INCORRECT_DATA, buf2)
              else case buffer_read_bip32_path buf2 (unat bip32_path_len) of
                None \<Rightarrow> Inl (SW_WRONG_DATA_LENGTH, buf2)
              | Some (bip32_path, buf3) \<Rightarrow> Inr (display, bip32_path, buf3))))"

text \<open>
  Lines 157 to 184: what the handler does once the request is decoded and the policy has
  answered. \<open>display\<close> is the flag of the request as C reads it in a condition
  (non-zero).
\<close>

definition export_pubkey ::
  "constants \<Rightarrow> collaborators \<Rightarrow> dispatcher_context \<Rightarrow> bool \<Rightarrow> u32 list \<Rightarrow> bool \<Rightarrow>
   dispatcher_context" where
  "export_pubkey K E dc display bip32_path is_safe =
     (if \<not> is_safe \<and> \<not> display then SEND_SW dc SW_NOT_SUPPORTED
      else
        let dc1 = record_call dc (Derive bip32_path (BIP32_PUBKEY_VERSION K))
        in case get_serialized_extended_pubkey_at_path E bip32_path (BIP32_PUBKEY_VERSION K) of
          None \<Rightarrow> SEND_SW dc1 SW_BAD_STATE
        | Some serialized_pubkey_str \<Rightarrow>
           (let (path_str, dc2) =
                  (if length bip32_path > 0
                   then (bip32_path_format E bip32_path, record_call dc1 (Format bip32_path))
                   else (''(Master key)'', dc1))
            in if display then
                 (let dc3 = record_call dc2 (Display path_str (\<not> is_safe) serialized_pubkey_str)
                  in if \<not> ui_display_pubkey E path_str (\<not> is_safe) serialized_pubkey_str
                     then SEND_SW dc3 SW_DENY
                     else SEND_RESPONSE dc3 serialized_pubkey_str SW_OK)
               else SEND_RESPONSE dc2 serialized_pubkey_str SW_OK))"

text \<open>
  The handler, lines 124 to 184. The argument \<open>protocol_version\<close> is not used, as
  in the source. The result is \<open>None\<close> only if the policy has read a path component
  out of range; otherwise it is the dispatcher context at the end of the call.
\<close>

definition handler_get_extended_pubkey ::
  "constants \<Rightarrow> collaborators \<Rightarrow> dispatcher_context \<Rightarrow> u8 \<Rightarrow> dispatcher_context option" where
  "handler_get_extended_pubkey K E dc protocol_version =
     (if \<not> os_global_pin_is_validated E
      then Some (SEND_SW dc SW_SECURITY_STATUS_NOT_SATISFIED)
      else case decode_request K (read_buffer dc) of
        Inl (sw, buf) \<Rightarrow> Some (SEND_SW (dc\<lparr>read_buffer := buf\<rparr>) sw)
      | Inr (display, bip32_path, buf) \<Rightarrow>
         (case is_path_safe_for_pubkey_export (MAX_BIP44_ACCOUNT_RECOMMENDED K)
                 bip32_path (coin_types_of K) of
            None \<Rightarrow> None
          | Some is_safe \<Rightarrow>
              Some (export_pubkey K E (dc\<lparr>read_buffer := buf\<rparr>) (display \<noteq> 0)
                      bip32_path is_safe)))"

text \<open>
  Values for the parameters, used where a statement is evaluated on a concrete request:
  a maximum of 10 path steps (the specification's example), an account bound of 100,
  coin type 88 twice, and collaborators that derive a fixed string, format every path
  as a fixed string and answer the confirmation with \<open>approve\<close>.
\<close>

definition sample_constants :: constants where
  "sample_constants =
     \<lparr>MAX_BIP32_PATH_STEPS = 10, MAX_BIP44_ACCOUNT_RECOMMENDED = 100,
      BIP44_COIN_TYPE = 88, BIP44_COIN_TYPE_2 = 88, BIP32_PUBKEY_VERSION = 0x0488B21E\<rparr>"

definition sample_collaborators :: "bool \<Rightarrow> bool \<Rightarrow> collaborators" where
  "sample_collaborators unlocked approve =
     \<lparr>os_global_pin_is_validated = unlocked,
      get_serialized_extended_pubkey_at_path = (\<lambda>path version. Some ''xpub''),
      bip32_path_format = (\<lambda>path. ''m/path''),
      ui_display_pubkey = (\<lambda>path_str is_unsafe key. approve)\<rparr>"

text \<open>The dispatcher context at the start of a call on the request \<open>bytes\<close>.\<close>

definition request :: "u8 list \<Rightarrow> dispatcher_context" where
  "request bytes = \<lparr>read_buffer = bytes, events = []\<rparr>"

section \<open>Auxiliary facts about the policy\<close>

lemma path_at_Some [simp]: "i < length p \<Longrightarrow> path_at p i = Some (p ! i)"
  by (simp add: path_at_def)

lemma and_then_Some [simp]: "and_then (Some a) b = (if a then b else Some False)"
  by (simp add: and_then_def)

lemma steps_hardened_in_range:
  "n \<le> length p \<Longrightarrow>
   steps_hardened p i n = Some (\<forall>k. i \<le> k \<and> k < n \<longrightarrow> p ! k \<ge> 0x80000000)"
proof (induction p i n rule: steps_hardened.induct)
  case (1 p i n)
  show ?case
  proof (cases "i < n")
    case False
    then show ?thesis by (auto simp add: steps_hardened.simps [of p i n])
  next
    case True
    note lt = this
    with "1.prems" have il: "i < length p" by simp
    show ?thesis
    proof (cases "p ! i < 0x80000000")
      case True
      then have "\<not> (\<forall>k. i \<le> k \<and> k < n \<longrightarrow> p ! k \<ge> 0x80000000)"
        using lt by (auto simp: not_le intro!: exI [of _ i])
      with True lt il show ?thesis
        by (simp add: steps_hardened.simps [of p i n])
    next
      case False
      have "(\<forall>k. i \<le> k \<and> k < n \<longrightarrow> p ! k \<ge> 0x80000000) =
            (\<forall>k. i + 1 \<le> k \<and> k < n \<longrightarrow> p ! k \<ge> 0x80000000)"
      proof -
        have "i \<le> k \<longleftrightarrow> k = i \<or> i + 1 \<le> k" for k by arith
        with False show ?thesis by (auto simp: not_less)
      qed
      with False lt il "1.IH" [OF lt _ False "1.prems"] show ?thesis
        by (simp add: steps_hardened.simps [of p i n])
    qed
  qed
qed

lemma steps_unhardened_in_range:
  "n \<le> length p \<Longrightarrow>
   steps_unhardened p i n = Some (\<forall>k. i \<le> k \<and> k < n \<longrightarrow> p ! k < 0x80000000)"
proof (induction p i n rule: steps_unhardened.induct)
  case (1 p i n)
  show ?case
  proof (cases "i < n")
    case False
    then show ?thesis by (auto simp add: steps_unhardened.simps [of p i n])
  next
    case True
    note lt = this
    with "1.prems" have il: "i < length p" by simp
    show ?thesis
    proof (cases "p ! i \<ge> 0x80000000")
      case True
      then have "\<not> (\<forall>k. i \<le> k \<and> k < n \<longrightarrow> p ! k < 0x80000000)"
        using lt by (auto simp: not_less intro!: exI [of _ i])
      with True lt il show ?thesis
        by (simp add: steps_unhardened.simps [of p i n])
    next
      case False
      have "(\<forall>k. i \<le> k \<and> k < n \<longrightarrow> p ! k < 0x80000000) =
            (\<forall>k. i + 1 \<le> k \<and> k < n \<longrightarrow> p ! k < 0x80000000)"
      proof -
        have "i \<le> k \<longleftrightarrow> k = i \<or> i + 1 \<le> k" for k by arith
        with False show ?thesis by (auto simp: not_less)
      qed
      with False lt il "1.IH" [OF lt _ False "1.prems"] show ?thesis
        by (simp add: steps_unhardened.simps [of p i n])
    qed
  qed
qed

lemma find_coin_type_eq: "find_coin_type ct cs found = (found \<or> ct \<in> set cs)"
  by (induction cs arbitrary: found) auto

lemma length_eq_2: "length p = 2 \<longleftrightarrow> (\<exists>a b. p = [a, b])"
  by (cases p; cases "tl p"; auto)

lemma length_eq_3: "length p = 3 \<longleftrightarrow> (\<exists>a b c. p = [a, b, c])"
  by (auto simp: length_Suc_conv eval_nat_numeral)

lemma length_eq_4: "length p = 4 \<longleftrightarrow> (\<exists>a b c d. p = [a, b, c, d])"
  by (auto simp: length_Suc_conv eval_nat_numeral)

lemma is_qtum_electrum_path_eq:
  "is_qtum_electrum_path p = Some (p = [0x8000002C, 0x80000058, 0x80454C45, 0xC2494532])"
proof (cases "length p = 4")
  case False
  then show ?thesis by (auto simp: is_qtum_electrum_path_def)
next
  case True
  then obtain a b c d where "p = [a, b, c, d]" by (auto simp: length_eq_4)
  then show ?thesis
    by (simp add: is_qtum_electrum_path_def path_eq_def H_def)
qed

lemma is_0h_45342h_path_eq:
  "is_0h_45342h_path p = Some (p = [0x80000000, 0x8000B11E])"
proof (cases "length p = 2")
  case False
  then show ?thesis by (auto simp: is_0h_45342h_path_def)
next
  case True
  then obtain a b where "p = [a, b]" by (auto simp: length_eq_2)
  then show ?thesis
    by (simp add: is_0h_45342h_path_def path_eq_def H_def)
qed

lemma is_20698h_3053h_12648430h_path_eq:
  "is_20698h_3053h_12648430h_path p = Some (p = [0x800050DA, 0x80000BED, 0x80C0FFEE])"
proof (cases "length p = 3")
  case False
  then show ?thesis by (auto simp: is_20698h_3053h_12648430h_path_def)
next
  case True
  then obtain a b c where "p = [a, b, c]" by (auto simp: length_eq_3)
  then show ?thesis
    by (simp add: is_20698h_3053h_12648430h_path_def path_eq_def H_def)
qed

lemma legacy_exception_paths_eq:
  "legacy_exception_paths =
     [[0x8000002C, 0x80000058, 0x80454C45, 0xC2494532], [0x80000000, 0x8000B11E],
      [0x800050DA, 0x80000BED, 0x80C0FFEE]]"
  by (simp add: legacy_exception_paths_def hardened_index_def)

lemma case_bool_option [simp]:
  "(case Some b of None \<Rightarrow> x | Some True \<Rightarrow> y | Some False \<Rightarrow> z) = (if b then y else z)"
  by (simp split: bool.splits)

lemma is_path_safe_unfold:
  "is_path_safe_for_pubkey_export M p cs =
     (if p \<in> set legacy_exception_paths then Some True
      else if length p < 3 then Some False
      else case hardened_der_len (p ! 0 AND 0x7FFFFFFF) of
             None \<Rightarrow> Some False
           | Some h \<Rightarrow> is_path_safe_tail M p cs (p ! 0 AND 0x7FFFFFFF) h)"
proof -
  have "\<not> length p < 3 \<Longrightarrow> path_at p 0 = Some (p ! 0)"
    by (auto simp: path_at_def)
  then show ?thesis
    by (simp add: legacy_exception_paths_eq is_path_safe_for_pubkey_export_def Let_def
        is_qtum_electrum_path_eq is_0h_45342h_path_eq is_20698h_3053h_12648430h_path_eq)
qed

lemma is_path_safe_tail_eq:
  assumes len: "3 \<le> length p" and h: "hardened_der_len (p ! 0 AND 0x7FFFFFFF) = Some h"
  shows "is_path_safe_tail M p cs (p ! 0 AND 0x7FFFFFFF) h =
          Some (h \<le> length p \<and>
                 (\<forall>k. k < h \<longrightarrow> p ! k \<ge> 0x80000000) \<and>
                 (\<forall>k. h \<le> k \<and> k < length p \<longrightarrow> p ! k < 0x80000000) \<and>
                 (p ! 1 AND 0x7FFFFFFF) \<in> set cs \<and>
                 unat (p ! 2 AND 0x7FFFFFFF) \<le> M \<and>
                 (p ! 0 AND 0x7FFFFFFF \<noteq> 48 \<or> p ! 3 AND 0x7FFFFFFF = 1 \<or>
                  p ! 3 AND 0x7FFFFFFF = 2))"
proof (cases "h \<le> length p")
  case False
  then show ?thesis by (simp add: is_path_safe_tail_def)
next
  case True
  note hl = this
  have p48: "(p ! 0 AND 0x7FFFFFFF = 48) = (h = 4)"
    using h by (auto simp: hardened_der_len_def split: if_splits)
  have p1: "path_at p 1 = Some (p ! 1)" and p2: "path_at p 2 = Some (p ! 2)"
    using len by (simp_all add: path_at_def)
  have p3: "p ! 0 AND 0x7FFFFFFF = 48 \<Longrightarrow> path_at p 3 = Some (p ! 3)"
    using hl p48 by (simp add: path_at_def)
  have sc: "script_type_ok p (p ! 0 AND 0x7FFFFFFF) =
      Some (p ! 0 AND 0x7FFFFFFF \<noteq> 48 \<or> p ! 3 AND 0x7FFFFFFF = 1 \<or>
            p ! 3 AND 0x7FFFFFFF = 2)"
    using p3 by (simp add: script_type_ok_def Let_def)
  have sh: "steps_hardened p 0 h = Some (\<forall>k. k < h \<longrightarrow> p ! k \<ge> 0x80000000)"
    using steps_hardened_in_range [OF hl, of 0] by simp
  have su: "steps_unhardened p h (length p) =
      Some (\<forall>k. h \<le> k \<and> k < length p \<longrightarrow> p ! k < 0x80000000)"
    by (rule steps_unhardened_in_range) simp
  show ?thesis
    unfolding is_path_safe_tail_def sh su sc p1 p2
    using hl by (simp add: find_coin_type_eq Let_def not_less bool.case_eq_if)
qed

lemma is_path_safe_char:
  "is_path_safe_for_pubkey_export M p cs =
     Some (p \<in> set legacy_exception_paths \<or>
           (3 \<le> length p \<and>
            (case hardened_der_len (p ! 0 AND 0x7FFFFFFF) of
               None \<Rightarrow> False
             | Some h \<Rightarrow>
                 h \<le> length p \<and>
                 (\<forall>k. k < h \<longrightarrow> p ! k \<ge> 0x80000000) \<and>
                 (\<forall>k. h \<le> k \<and> k < length p \<longrightarrow> p ! k < 0x80000000) \<and>
                 (p ! 1 AND 0x7FFFFFFF) \<in> set cs \<and>
                 unat (p ! 2 AND 0x7FFFFFFF) \<le> M \<and>
                 (p ! 0 AND 0x7FFFFFFF \<noteq> 48 \<or> p ! 3 AND 0x7FFFFFFF = 1 \<or>
                  p ! 3 AND 0x7FFFFFFF = 2))))"
proof (cases "p \<in> set legacy_exception_paths \<or> length p < 3")
  case True
  then show ?thesis unfolding is_path_safe_unfold by auto
next
  case False
  then have len: "3 \<le> length p" by simp
  show ?thesis
  proof (cases "hardened_der_len (p ! 0 AND 0x7FFFFFFF)")
    case None
    with False show ?thesis unfolding is_path_safe_unfold by simp
  next
    case (Some h)
    with False is_path_safe_tail_eq [OF len Some, of M cs] show ?thesis
      unfolding is_path_safe_unfold by simp
  qed
qed

lemma shape_iff:
  fixes c :: u32
  assumes "h \<le> length p"
  shows "((\<forall>k. k < h \<longrightarrow> p ! k \<ge> c) \<and> (\<forall>k. h \<le> k \<and> k < length p \<longrightarrow> p ! k < c)) =
         (\<forall>k < length p. (p ! k \<ge> c) = (k < h))"
proof
  assume l: "(\<forall>k. k < h \<longrightarrow> p ! k \<ge> c) \<and> (\<forall>k. h \<le> k \<and> k < length p \<longrightarrow> p ! k < c)"
  show "\<forall>k < length p. (p ! k \<ge> c) = (k < h)"
  proof (intro allI impI)
    fix k assume "k < length p"
    with l show "(p ! k \<ge> c) = (k < h)"
      by (cases "k < h") (auto simp: not_le)
  qed
next
  assume r: "\<forall>k < length p. (p ! k \<ge> c) = (k < h)"
  with assms show "(\<forall>k. k < h \<longrightarrow> p ! k \<ge> c) \<and> (\<forall>k. h \<le> k \<and> k < length p \<longrightarrow> p ! k < c)"
    by (auto simp: not_le [symmetric])
qed

section \<open>The policy: legacy exceptions, minimum length, hardening shape\<close>

text \<open>
  Claim C3. A path that is equal, component for component, to one of the three legacy
  exception paths is classified safe, whatever the accepted coin types and the account
  bound are, and although the general rules (minimum length, purpose, hardening shape,
  coin type, account bound) would reject it.
\<close>

theorem legacy_exceptions_are_safe:
  "p \<in> set legacy_exception_paths \<Longrightarrow> is_path_safe_for_pubkey_export M p cs = Some True"
  by (simp add: is_path_safe_unfold)

text \<open>The path \<open>m/0'/45342'\<close>, with no accepted coin type and an account bound of 0.\<close>

theorem legacy_exceptions_are_safe_witness:
  "[hardened_index 0, hardened_index 45342] \<in> set legacy_exception_paths \<and>
   is_path_safe_for_pubkey_export 0 [hardened_index 0, hardened_index 45342] [] = Some True"
  using legacy_exceptions_are_safe [of "[hardened_index 0, hardened_index 45342]" 0 "[]"]
  by (simp add: legacy_exception_paths_def)

text \<open>
  Claim C4, as stated: every path of length below 3 is classified unsafe. The legacy
  path \<open>m/0'/45342'\<close> has length 2 and is classified safe.
\<close>

theorem short_path_counterexample:
  "length [0x80000000, 0x8000B11E :: u32] < 3 \<and>
   is_path_safe_for_pubkey_export 100 [0x80000000, 0x8000B11E] [88, 88] = Some True"
  by (simp add: is_path_safe_unfold legacy_exception_paths_eq)

text \<open>
  Claim C4, amended: every path of length below 3 other than the legacy exception
  \<open>m/0'/45342'\<close> is classified unsafe.
\<close>

theorem short_paths_are_unsafe:
  "length p < 3 \<Longrightarrow> p \<noteq> [hardened_index 0, hardened_index 45342] \<Longrightarrow>
   is_path_safe_for_pubkey_export M p cs = Some False"
  by (auto simp: is_path_safe_unfold legacy_exception_paths_def)

text \<open>The path \<open>m/44'/88'\<close>.\<close>

theorem short_paths_are_unsafe_witness:
  "length [hardened_index 44, hardened_index 88] < 3 \<and>
   [hardened_index 44, hardened_index 88] \<noteq> [hardened_index 0, hardened_index 45342] \<and>
   is_path_safe_for_pubkey_export 100 [hardened_index 44, hardened_index 88] [88, 88] = Some False"
  using short_paths_are_unsafe [of "[hardened_index 44, hardened_index 88]" 100 "[88, 88]"]
  by (simp add: hardened_index_def)

text \<open>
  Claim C5. For a path of length at least 3 that is not a legacy exception, with
  \<open>purpose\<close> the first component without its hardened flag: a purpose other than
  44, 49, 84, 86, 45 and 48 makes the path unsafe; for a purpose among 44, 49, 84, 86
  and 45 the path is unsafe unless exactly its first 3 components are hardened (the
  components of index 0 to 2 hardened, all later ones not hardened); for purpose 48 the
  path is unsafe unless it has at least 4 components and exactly its first 4 are
  hardened.
\<close>

theorem hardening_shape_is_required:
  assumes "3 \<le> length p" and "p \<notin> set legacy_exception_paths"
  shows
   "(p ! 0 AND 0x7FFFFFFF \<notin> {44, 49, 84, 86, 45, 48} \<longrightarrow>
       is_path_safe_for_pubkey_export M p cs = Some False) \<and>
    (p ! 0 AND 0x7FFFFFFF \<in> {44, 49, 84, 86, 45} \<and>
     \<not> (\<forall>k < length p. (p ! k \<ge> 0x80000000) = (k < 3)) \<longrightarrow>
       is_path_safe_for_pubkey_export M p cs = Some False) \<and>
    (p ! 0 AND 0x7FFFFFFF = 48 \<and>
     \<not> (4 \<le> length p \<and> (\<forall>k < length p. (p ! k \<ge> 0x80000000) = (k < 4))) \<longrightarrow>
       is_path_safe_for_pubkey_export M p cs = Some False)"
proof (intro conjI impI)
  assume "p ! 0 AND 0x7FFFFFFF \<notin> {44, 49, 84, 86, 45, 48}"
  then have "hardened_der_len (p ! 0 AND 0x7FFFFFFF) = None"
    by (simp add: hardened_der_len_def)
  with assms show "is_path_safe_for_pubkey_export M p cs = Some False"
    by (simp add: is_path_safe_char)
next
  assume a: "p ! 0 AND 0x7FFFFFFF \<in> {44, 49, 84, 86, 45} \<and>
     \<not> (\<forall>k < length p. (p ! k \<ge> 0x80000000) = (k < 3))"
  then have h: "hardened_der_len (p ! 0 AND 0x7FFFFFFF) = Some 3"
    by (auto simp: hardened_der_len_def)
  from a shape_iff [OF assms(1), of "0x80000000"]
  have "\<not> ((\<forall>k. k < 3 \<longrightarrow> p ! k \<ge> 0x80000000) \<and>
            (\<forall>k. 3 \<le> k \<and> k < length p \<longrightarrow> p ! k < 0x80000000))"
    by simp
  with assms h show "is_path_safe_for_pubkey_export M p cs = Some False"
    unfolding is_path_safe_char by simp blast?
next
  assume a: "p ! 0 AND 0x7FFFFFFF = 48 \<and>
     \<not> (4 \<le> length p \<and> (\<forall>k < length p. (p ! k \<ge> 0x80000000) = (k < 4)))"
  then have h: "hardened_der_len (p ! 0 AND 0x7FFFFFFF) = Some 4"
    by (auto simp: hardened_der_len_def)
  have "\<not> (4 \<le> length p \<and> (\<forall>k. k < 4 \<longrightarrow> p ! k \<ge> 0x80000000) \<and>
            (\<forall>k. 4 \<le> k \<and> k < length p \<longrightarrow> p ! k < 0x80000000))"
  proof (cases "4 \<le> length p")
    case True
    with a shape_iff [OF True, of "0x80000000"] show ?thesis by simp
  next
    case False
    then show ?thesis by simp
  qed
  with assms h show "is_path_safe_for_pubkey_export M p cs = Some False"
    unfolding is_path_safe_char by simp blast?
qed

text \<open>The path \<open>m/44'/88'/0\<close>, whose third component is not hardened.\<close>

theorem hardening_shape_is_required_witness:
  "3 \<le> length [0x8000002C, 0x80000058, 0 :: u32] \<and>
   [0x8000002C, 0x80000058, 0] \<notin> set legacy_exception_paths \<and>
   [0x8000002C, 0x80000058, 0 :: u32] ! 0 AND 0x7FFFFFFF \<in> {44, 49, 84, 86, 45} \<and>
   \<not> [0x8000002C, 0x80000058, 0 :: u32] ! 2 \<ge> 0x80000000 \<and>
   is_path_safe_for_pubkey_export 100 [0x8000002C, 0x80000058, 0] [88, 88] = Some False"
proof -
  have len: "3 \<le> length [0x8000002C, 0x80000058, 0 :: u32]" by simp
  have nex: "[0x8000002C, 0x80000058, 0] \<notin> set legacy_exception_paths"
    by (simp add: legacy_exception_paths_eq)
  have bad: "\<not> (\<forall>k < length [0x8000002C, 0x80000058, 0 :: u32].
      ([0x8000002C, 0x80000058, 0 :: u32] ! k \<ge> 0x80000000) = (k < 3))"
  proof
    assume "\<forall>k < length [0x8000002C, 0x80000058, 0 :: u32].
      ([0x8000002C, 0x80000058, 0 :: u32] ! k \<ge> 0x80000000) = (k < 3)"
    then have "([0x8000002C, 0x80000058, 0 :: u32] ! 2 \<ge> 0x80000000) = ((2::nat) < 3)"
      by (rule allE [of _ 2]) simp
    then show False by simp
  qed
  from hardening_shape_is_required [OF len nex, of 100 "[88, 88]"] bad nex
  show ?thesis by simp
qed

section \<open>The policy: coin type, account, script type, reads in range\<close>

text \<open>
  Claim C6. For a path that is not a legacy exception, has an accepted purpose and
  satisfies the hardening shape of that purpose: the policy answers unsafe if the second
  component without its hardened flag is not among the accepted coin types, or if the
  third component without its hardened flag exceeds the account bound. The handler
  passes exactly two coin types, \<open>BIP44_COIN_TYPE\<close> and \<open>BIP44_COIN_TYPE_2\<close>, so
  with the handler's arguments a coin type different from both makes the path unsafe.
\<close>

theorem coin_type_and_account_are_checked:
  assumes "p \<notin> set legacy_exception_paths"
    and "p ! 0 AND 0x7FFFFFFF \<in> {44, 49, 84, 86, 45, 48}"
    and "h = (if p ! 0 AND 0x7FFFFFFF = 48 then 4 else 3)"
    and "h \<le> length p"
    and "\<forall>k < length p. (p ! k \<ge> 0x80000000) = (k < h)"
  shows
   "(p ! 1 AND 0x7FFFFFFF \<notin> set cs \<or> unat (p ! 2 AND 0x7FFFFFFF) > M \<longrightarrow>
       is_path_safe_for_pubkey_export M p cs = Some False) \<and>
    coin_types_of K = [BIP44_COIN_TYPE K, BIP44_COIN_TYPE_2 K] \<and>
    (p ! 1 AND 0x7FFFFFFF \<noteq> BIP44_COIN_TYPE K \<and> p ! 1 AND 0x7FFFFFFF \<noteq> BIP44_COIN_TYPE_2 K \<longrightarrow>
       is_path_safe_for_pubkey_export (MAX_BIP44_ACCOUNT_RECOMMENDED K) p (coin_types_of K)
         = Some False)"
proof -
  have "is_path_safe_for_pubkey_export M' p cs' = Some False"
    if "p ! 1 AND 0x7FFFFFFF \<notin> set cs' \<or> unat (p ! 2 AND 0x7FFFFFFF) > M'" for M' cs'
    using that assms(1) by (auto simp: is_path_safe_char split: option.splits)
  then show ?thesis by (simp add: coin_types_of_def)
qed

text \<open>
  The path \<open>m/44'/0'/50000000'\<close> with accepted coin types 88 and 88 and an account
  bound of 100: both the coin type and the account are rejected.
\<close>

theorem coin_type_and_account_are_checked_witness:
  "[0x8000002C, 0x80000000, 0x82FAF080] \<notin> set legacy_exception_paths \<and>
   [0x8000002C, 0x80000000, 0x82FAF080 :: u32] ! 0 AND 0x7FFFFFFF = 44 \<and>
   [0x8000002C, 0x80000000, 0x82FAF080 :: u32] ! 1 AND 0x7FFFFFFF \<notin> set [88, 88] \<and>
   unat ([0x8000002C, 0x80000000, 0x82FAF080 :: u32] ! 2 AND 0x7FFFFFFF) > 100 \<and>
   is_path_safe_for_pubkey_export 100 [0x8000002C, 0x80000000, 0x82FAF080] [88, 88] = Some False"
proof -
  let ?p = "[0x8000002C, 0x80000000, 0x82FAF080 :: u32]"
  have nex: "?p \<notin> set legacy_exception_paths"
    by (simp add: legacy_exception_paths_eq)
  have pu: "?p ! 0 AND 0x7FFFFFFF \<in> {44, 49, 84, 86, 45, 48}" by simp
  have h: "(3::nat) = (if ?p ! 0 AND 0x7FFFFFFF = 48 then 4 else 3)" by simp
  have len: "3 \<le> length ?p" by simp
  have shape: "\<forall>k < length ?p. (?p ! k \<ge> 0x80000000) = (k < 3)"
    by (simp add: All_less_Suc numeral_3_eq_3)
  from coin_type_and_account_are_checked [OF nex pu h len shape, of "[88, 88]" 100] nex
  show ?thesis by simp
qed

text \<open>
  Claim C7. For a path that is not a legacy exception, has purpose 48 and passes the
  checks that come before (at least 4 components, exactly the first 4 hardened, an
  accepted coin type, an account within the bound), the policy answers safe exactly when
  the fourth component without its hardened flag is 1 or 2.
\<close>

theorem bip48_script_type:
  assumes "p \<notin> set legacy_exception_paths"
    and "p ! 0 AND 0x7FFFFFFF = 48"
    and "4 \<le> length p"
    and "\<forall>k < length p. (p ! k \<ge> 0x80000000) = (k < 4)"
    and "p ! 1 AND 0x7FFFFFFF \<in> set cs"
    and "unat (p ! 2 AND 0x7FFFFFFF) \<le> M"
  shows "is_path_safe_for_pubkey_export M p cs =
           Some (p ! 3 AND 0x7FFFFFFF = 1 \<or> p ! 3 AND 0x7FFFFFFF = 2)"
proof -
  have h: "hardened_der_len (p ! 0 AND 0x7FFFFFFF) = Some 4"
    using assms(2) by (simp add: hardened_der_len_def)
  from assms(4) shape_iff [OF assms(3), of "0x80000000"]
  have "(\<forall>k. k < 4 \<longrightarrow> p ! k \<ge> 0x80000000) \<and>
        (\<forall>k. 4 \<le> k \<and> k < length p \<longrightarrow> p ! k < 0x80000000)"
    by simp
  with assms h show ?thesis
    unfolding is_path_safe_char by simp
qed

text \<open>The paths \<open>m/48'/88'/0'/2'\<close>, safe, and \<open>m/48'/88'/0'/3'\<close>, unsafe.\<close>

theorem bip48_script_type_witness:
  "[0x80000030, 0x80000058, 0x80000000, 0x80000002] \<notin> set legacy_exception_paths \<and>
   [0x80000030, 0x80000058, 0x80000000, 0x80000002 :: u32] ! 0 AND 0x7FFFFFFF = 48 \<and>
   is_path_safe_for_pubkey_export 100 [0x80000030, 0x80000058, 0x80000000, 0x80000002] [88, 88]
     = Some True \<and>
   is_path_safe_for_pubkey_export 100 [0x80000030, 0x80000058, 0x80000000, 0x80000003] [88, 88]
     = Some False"
proof -
  let ?p = "[0x80000030, 0x80000058, 0x80000000, 0x80000002] :: u32 list"
  let ?q = "[0x80000030, 0x80000058, 0x80000000, 0x80000003] :: u32 list"
  have nex: "?p \<notin> set legacy_exception_paths" "?q \<notin> set legacy_exception_paths"
    by (simp_all add: legacy_exception_paths_eq)
  have pu: "?p ! 0 AND 0x7FFFFFFF = 48" "?q ! 0 AND 0x7FFFFFFF = 48" by simp_all
  have len: "4 \<le> length ?p" "4 \<le> length ?q" by simp_all
  have shape: "\<forall>k < length ?p. (?p ! k \<ge> 0x80000000) = (k < 4)"
    "\<forall>k < length ?q. (?q ! k \<ge> 0x80000000) = (k < 4)"
    by (simp_all add: All_less_Suc)
  have coin: "?p ! 1 AND 0x7FFFFFFF \<in> set [88, 88]" "?q ! 1 AND 0x7FFFFFFF \<in> set [88, 88]"
    by simp_all
  have acc: "unat (?p ! 2 AND 0x7FFFFFFF) \<le> 100" "unat (?q ! 2 AND 0x7FFFFFFF) \<le> 100"
    by simp_all
  from bip48_script_type [OF nex(1) pu(1) len(1) shape(1) coin(1) acc(1)]
    bip48_script_type [OF nex(2) pu(2) len(2) shape(2) coin(2) acc(2)] nex(1)
  show ?thesis by simp
qed

text \<open>
  Claim C10. For every path and every value of its components the policy returns a
  boolean: it never reads a component at an index that is not below the length of the
  path. A path of purpose 48 with fewer than 4 components is rejected (by the minimum
  length or by the check of the hardened prefix length) and its fourth component is not
  read.
\<close>

theorem policy_reads_in_range:
  "is_path_safe_for_pubkey_export M p cs \<noteq> None \<and>
   (length p < 4 \<and> p ! 0 AND 0x7FFFFFFF = 48 \<longrightarrow>
      is_path_safe_for_pubkey_export M p cs = Some False)"
proof -
  have "p \<notin> set legacy_exception_paths" if "p ! 0 AND 0x7FFFFFFF = 48"
    using that by (auto simp: legacy_exception_paths_eq)
  then show ?thesis
    by (auto simp: is_path_safe_char hardened_der_len_def)
qed

text \<open>
  The path \<open>m/48'/88'/0'\<close>: it has no fourth component, a read of it would give
  \<open>None\<close>, and the policy answers unsafe.
\<close>

theorem policy_reads_in_range_witness:
  "length [0x80000030, 0x80000058, 0x80000000 :: u32] < 4 \<and>
   [0x80000030, 0x80000058, 0x80000000 :: u32] ! 0 AND 0x7FFFFFFF = 48 \<and>
   is_path_safe_for_pubkey_export 100 [0x80000030, 0x80000058, 0x80000000] [88, 88] = Some False \<and>
   path_at [0x80000030, 0x80000058, 0x80000000] 3 = None"
  using policy_reads_in_range [of 100 "[0x80000030, 0x80000058, 0x80000000]" "[88, 88]"]
  by (simp add: path_at_def)

section \<open>Auxiliary facts about the handler\<close>

lemma policy_total: "\<exists>b. is_path_safe_for_pubkey_export M p cs = Some b"
  by (simp add: is_path_safe_char)

lemma decode_request_Inl:
  "decode_request K buf = Inl (sw, buf') \<Longrightarrow> sw = SW_WRONG_DATA_LENGTH \<or> sw = SW_INCORRECT_DATA"
  by (auto simp: decode_request_def split: option.splits if_splits)

lemma u8_le_1: "\<not> 1 < (d :: u8) \<Longrightarrow> d = 0 \<or> d = 1"
  by (auto simp: not_less le_less word_less_1)

lemma decode_request_Inr:
  "decode_request K buf = Inr (display, path, buf') \<Longrightarrow> display = 0 \<or> display = 1"
proof -
  assume "decode_request K buf = Inr (display, path, buf')"
  then have "\<not> 1 < display"
    by (auto simp: decode_request_def split: option.splits if_splits)
  then show ?thesis by (rule u8_le_1)
qed

lemma decode_request_Cons:
  "decode_request K (display # n # rest) =
     (if display > 1 \<or> unat n > MAX_BIP32_PATH_STEPS K then Inl (SW_INCORRECT_DATA, rest)
      else if length rest < 4 * unat n then Inl (SW_WRONG_DATA_LENGTH, rest)
      else Inr (display, be_u32s (take (4 * unat n) rest), drop (4 * unat n) rest))"
  by (simp add: decode_request_def buffer_read_u8_def buffer_read_bip32_path_def)

lemma decode_request_short:
  "length buf < 2 \<Longrightarrow> \<exists>buf'. decode_request K buf = Inl (SW_WRONG_DATA_LENGTH, buf')"
  by (cases buf; cases "tl buf") (auto simp: decode_request_def buffer_read_u8_def)

lemma export_pubkey_events:
  "export_pubkey K E dc display path is_safe =
     dc\<lparr>events := events dc @
       (if \<not> is_safe \<and> \<not> display then [Send [] SW_NOT_SUPPORTED]
        else Derive path (BIP32_PUBKEY_VERSION K) #
          (case get_serialized_extended_pubkey_at_path E path (BIP32_PUBKEY_VERSION K) of
             None \<Rightarrow> [Send [] SW_BAD_STATE]
           | Some key \<Rightarrow>
               (if path = [] then [] else [Format path]) @
               (if display then
                  [Display (if path = [] then ''(Master key)'' else bip32_path_format E path)
                     (\<not> is_safe) key,
                   if ui_display_pubkey E
                        (if path = [] then ''(Master key)'' else bip32_path_format E path)
                        (\<not> is_safe) key
                   then Send key SW_OK else Send [] SW_DENY]
                else [Send key SW_OK])))\<rparr>"
  by (simp add: export_pubkey_def SEND_SW_def SEND_RESPONSE_def record_call_def Let_def
      split: option.splits)

lemma handler_unfold:
  "handler_get_extended_pubkey K E dc pv =
     Some (if \<not> os_global_pin_is_validated E then SEND_SW dc SW_SECURITY_STATUS_NOT_SATISFIED
           else case decode_request K (read_buffer dc) of
             Inl (sw, buf) \<Rightarrow> SEND_SW (dc\<lparr>read_buffer := buf\<rparr>) sw
           | Inr (display, path, buf) \<Rightarrow>
               export_pubkey K E (dc\<lparr>read_buffer := buf\<rparr>) (display \<noteq> 0) path
                 (is_path_safe_for_pubkey_export (MAX_BIP44_ACCOUNT_RECOMMENDED K) path
                    (coin_types_of K) = Some True))"
  using policy_total
  by (auto simp: handler_get_extended_pubkey_def is_path_safe_char split: sum.splits)

section \<open>The handler: gate, decoding errors, master key, disclosure\<close>

text \<open>
  Claim C2. When the device is unlocked, the request decodes to a display flag of 0 and a
  path, and the policy classifies the path as unsafe, the handler sends the status
  \<open>SW_NOT_SUPPORTED\<close> with no data and does nothing else: no derivation, no
  confirmation, no key.
\<close>

theorem unsafe_path_without_display_is_not_supported:
  assumes "os_global_pin_is_validated E"
    and "decode_request K (read_buffer dc) = Inr (0, path, buf)"
    and "is_path_safe_for_pubkey_export (MAX_BIP44_ACCOUNT_RECOMMENDED K) path (coin_types_of K)
           = Some False"
  shows "handler_get_extended_pubkey K E dc pv =
           Some (dc\<lparr>read_buffer := buf, events := events dc @ [Send [] SW_NOT_SUPPORTED]\<rparr>)"
  using assms by (simp add: handler_unfold export_pubkey_events)

text \<open>
  The request with display flag 0 and path \<open>m/44'/0'/50000000'\<close>, whose account
  exceeds the bound.
\<close>

theorem unsafe_path_without_display_is_not_supported_witness:
  "decode_request sample_constants
     [0, 3, 0x80, 0, 0, 0x2C, 0x80, 0, 0, 0, 0x82, 0xFA, 0xF0, 0x80] =
     Inr (0, [0x8000002C, 0x80000000, 0x82FAF080], []) \<and>
   is_path_safe_for_pubkey_export 100 [0x8000002C, 0x80000000, 0x82FAF080] [88, 88] = Some False \<and>
   handler_get_extended_pubkey sample_constants (sample_collaborators True True)
     (request [0, 3, 0x80, 0, 0, 0x2C, 0x80, 0, 0, 0, 0x82, 0xFA, 0xF0, 0x80]) 1 =
     Some \<lparr>read_buffer = [], events = [Send [] SW_NOT_SUPPORTED]\<rparr>"
proof -
  let ?bytes = "[0, 3, 0x80, 0, 0, 0x2C, 0x80, 0, 0, 0, 0x82, 0xFA, 0xF0, 0x80] :: u8 list"
  have unlocked: "os_global_pin_is_validated (sample_collaborators True True)"
    by (simp add: sample_collaborators_def)
  have dec: "decode_request sample_constants (read_buffer (request ?bytes)) =
      Inr (0, [0x8000002C, 0x80000000, 0x82FAF080], [])"
    by (simp add: decode_request_Cons request_def sample_constants_def read_u32_be_def)
  have unsafe: "is_path_safe_for_pubkey_export (MAX_BIP44_ACCOUNT_RECOMMENDED sample_constants)
      [0x8000002C, 0x80000000, 0x82FAF080] (coin_types_of sample_constants) = Some False"
    by (simp add: is_path_safe_char legacy_exception_paths_eq hardened_der_len_def
        sample_constants_def coin_types_of_def)
  from unsafe_path_without_display_is_not_supported [OF unlocked dec unsafe, of 1] dec unsafe
  show ?thesis
    by (simp add: request_def sample_constants_def coin_types_of_def)
qed

text \<open>
  Claim C8. When the device is unlocked, so that the request is decoded: a request of
  fewer than 2 bytes gets \<open>SW_WRONG_DATA_LENGTH\<close>; a request whose display byte
  exceeds 1 or whose path length byte exceeds \<open>MAX_BIP32_PATH_STEPS\<close> gets
  \<open>SW_INCORRECT_DATA\<close>, whatever follows the two bytes, and the bytes that follow are
  left unread in the buffer; a request with a valid header and fewer than 4 bytes for
  each declared component gets \<open>SW_WRONG_DATA_LENGTH\<close>.
\<close>

theorem decoding_errors:
  assumes "os_global_pin_is_validated E"
  shows
   "(length (read_buffer dc) < 2 \<longrightarrow>
       (\<exists>buf. handler_get_extended_pubkey K E dc pv =
          Some (dc\<lparr>read_buffer := buf, events := events dc @ [Send [] SW_WRONG_DATA_LENGTH]\<rparr>))) \<and>
    (read_buffer dc = display # n # rest \<and> (display > 1 \<or> unat n > MAX_BIP32_PATH_STEPS K) \<longrightarrow>
       handler_get_extended_pubkey K E dc pv =
          Some (dc\<lparr>read_buffer := rest, events := events dc @ [Send [] SW_INCORRECT_DATA]\<rparr>)) \<and>
    (read_buffer dc = display # n # rest \<and> display \<le> 1 \<and> unat n \<le> MAX_BIP32_PATH_STEPS K \<and>
     length rest < 4 * unat n \<longrightarrow>
       handler_get_extended_pubkey K E dc pv =
          Some (dc\<lparr>read_buffer := rest, events := events dc @ [Send [] SW_WRONG_DATA_LENGTH]\<rparr>))"
proof (intro conjI impI)
  assume "length (read_buffer dc) < 2"
  from decode_request_short [OF this, of K] obtain buf
    where "decode_request K (read_buffer dc) = Inl (SW_WRONG_DATA_LENGTH, buf)" ..
  with assms show "\<exists>buf. handler_get_extended_pubkey K E dc pv =
      Some (dc\<lparr>read_buffer := buf, events := events dc @ [Send [] SW_WRONG_DATA_LENGTH]\<rparr>)"
    by (intro exI [of _ buf]) (simp add: handler_unfold SEND_SW_def)
next
  assume "read_buffer dc = display # n # rest \<and> (display > 1 \<or> unat n > MAX_BIP32_PATH_STEPS K)"
  with assms show "handler_get_extended_pubkey K E dc pv =
      Some (dc\<lparr>read_buffer := rest, events := events dc @ [Send [] SW_INCORRECT_DATA]\<rparr>)"
    by (auto simp: handler_unfold SEND_SW_def decode_request_Cons)
next
  assume "read_buffer dc = display # n # rest \<and> display \<le> 1 \<and>
    unat n \<le> MAX_BIP32_PATH_STEPS K \<and> length rest < 4 * unat n"
  with assms show "handler_get_extended_pubkey K E dc pv =
      Some (dc\<lparr>read_buffer := rest, events := events dc @ [Send [] SW_WRONG_DATA_LENGTH]\<rparr>)"
    by (auto simp: handler_unfold SEND_SW_def decode_request_Cons not_less [symmetric])
qed

text \<open>
  A request of one byte; a request that declares 11 components, more than the maximum
  of 10, followed by one byte; a request that declares one component and carries 3 of
  its 4 bytes.
\<close>

theorem decoding_errors_witness:
  "handler_get_extended_pubkey sample_constants (sample_collaborators True True)
     (request [1]) 1 = Some \<lparr>read_buffer = [], events = [Send [] SW_WRONG_DATA_LENGTH]\<rparr> \<and>
   handler_get_extended_pubkey sample_constants (sample_collaborators True True)
     (request [0, 11, 0x80]) 1 =
     Some \<lparr>read_buffer = [0x80], events = [Send [] SW_INCORRECT_DATA]\<rparr> \<and>
   handler_get_extended_pubkey sample_constants (sample_collaborators True True)
     (request [0, 1, 0x80, 0, 0]) 1 =
     Some \<lparr>read_buffer = [0x80, 0, 0], events = [Send [] SW_WRONG_DATA_LENGTH]\<rparr>"
proof -
  let ?K = sample_constants and ?E = "sample_collaborators True True"
  have unlocked: "os_global_pin_is_validated ?E"
    by (simp add: sample_collaborators_def)
  have a: "handler_get_extended_pubkey ?K ?E (request [1]) 1 =
      Some \<lparr>read_buffer = [], events = [Send [] SW_WRONG_DATA_LENGTH]\<rparr>"
    by (simp add: handler_unfold unlocked decode_request_def buffer_read_u8_def request_def
        SEND_SW_def)
  from decoding_errors [OF unlocked, of "request [0, 11, 0x80]" ?K 1 0 11 "[0x80]"]
  have b: "handler_get_extended_pubkey ?K ?E (request [0, 11, 0x80]) 1 =
      Some \<lparr>read_buffer = [0x80], events = [Send [] SW_INCORRECT_DATA]\<rparr>"
    by (simp add: request_def sample_constants_def)
  from decoding_errors [OF unlocked, of "request [0, 1, 0x80, 0, 0]" ?K 1 0 1 "[0x80, 0, 0]"]
  have c: "handler_get_extended_pubkey ?K ?E (request [0, 1, 0x80, 0, 0]) 1 =
      Some \<lparr>read_buffer = [0x80, 0, 0], events = [Send [] SW_WRONG_DATA_LENGTH]\<rparr>"
    by (simp add: request_def sample_constants_def)
  from a b c show ?thesis by simp
qed

text \<open>
  Claim C9. A request with an empty path reaches the confirmation when the device is
  unlocked, the display flag is 1 and the derivation succeeds. Then the handler derives
  the key, does not call the path formatter, shows the text \<open>(Master key)\<close> with the
  unsafe flag and the key, and sends the key with \<open>SW_OK\<close> if the user approves,
  \<open>SW_DENY\<close> with no data if not.
\<close>

theorem empty_path_is_displayed_as_master_key:
  assumes "os_global_pin_is_validated E"
    and "decode_request K (read_buffer dc) = Inr (1, [], buf)"
    and "get_serialized_extended_pubkey_at_path E [] (BIP32_PUBKEY_VERSION K) = Some key"
  shows "handler_get_extended_pubkey K E dc pv =
           Some (dc\<lparr>read_buffer := buf,
                    events := events dc @
                      [Derive [] (BIP32_PUBKEY_VERSION K),
                       Display ''(Master key)'' True key,
                       if ui_display_pubkey E ''(Master key)'' True key
                       then Send key SW_OK else Send [] SW_DENY]\<rparr>)"
  using assms
  by (simp add: handler_unfold export_pubkey_events is_path_safe_char
      legacy_exception_paths_eq)

text \<open>The request with display flag 1 and no path component, denied by the user.\<close>

theorem empty_path_is_displayed_as_master_key_witness:
  "decode_request sample_constants [1, 0] = Inr (1, [], []) \<and>
   handler_get_extended_pubkey sample_constants (sample_collaborators True False)
     (request [1, 0]) 1 =
     Some \<lparr>read_buffer = [],
           events = [Derive [] 0x0488B21E, Display ''(Master key)'' True ''xpub'',
                     Send [] SW_DENY]\<rparr>"
proof -
  let ?K = sample_constants and ?E = "sample_collaborators True False"
  have unlocked: "os_global_pin_is_validated ?E"
    by (simp add: sample_collaborators_def)
  have dec: "decode_request ?K (read_buffer (request [1, 0])) = Inr (1, [], [])"
    by (simp add: decode_request_Cons request_def sample_constants_def)
  have key: "get_serialized_extended_pubkey_at_path ?E [] (BIP32_PUBKEY_VERSION ?K) = Some ''xpub''"
    by (simp add: sample_collaborators_def)
  from empty_path_is_displayed_as_master_key [OF unlocked dec key, of 1] dec
  show ?thesis
    by (simp add: request_def sample_constants_def sample_collaborators_def)
qed

text \<open>
  Claim C1, as stated: the handler never derives key material for an unsafe path unless
  the user has approved that path and key. On the request with display flag 1 and the
  unsafe path \<open>m/44'/0'/50000000'\<close> the handler calls the derivation, then shows path
  and key, and the user denies: the key of an unsafe path has been derived without
  approval (it is not sent).
\<close>

theorem derivation_before_approval_counterexample:
  "is_path_safe_for_pubkey_export (MAX_BIP44_ACCOUNT_RECOMMENDED sample_constants)
     [0x8000002C, 0x80000000, 0x82FAF080] (coin_types_of sample_constants) = Some False \<and>
   handler_get_extended_pubkey sample_constants (sample_collaborators True False)
     (request [1, 3, 0x80, 0, 0, 0x2C, 0x80, 0, 0, 0, 0x82, 0xFA, 0xF0, 0x80]) 1 =
     Some \<lparr>read_buffer = [],
           events = [Derive [0x8000002C, 0x80000000, 0x82FAF080] 0x0488B21E,
                     Format [0x8000002C, 0x80000000, 0x82FAF080],
                     Display ''m/path'' True ''xpub'',
                     Send [] SW_DENY]\<rparr> \<and>
   \<not> ui_display_pubkey (sample_collaborators True False) ''m/path'' True ''xpub''"
  by (simp add: handler_unfold export_pubkey_events decode_request_Cons request_def
      sample_constants_def sample_collaborators_def coin_types_of_def read_u32_be_def
      is_path_safe_char legacy_exception_paths_eq hardened_der_len_def)

text \<open>
  Claim C1, amended. Every call of the handler returns, and what it has done, \<open>evs\<close>,
  satisfies:
  \<^item> exactly one event is a transmission, and it is the last event;
  \<^item> a transmission with a status other than \<open>SW_OK\<close> carries no data;
  \<^item> a transmission with \<open>SW_OK\<close> carries the key derived for the decoded path of
    the request, on an unlocked device, and either the policy classifies that path as
    safe, or the display flag is 1, the event just before the transmission is the
    confirmation screen with the text of that path, the unsafe flag and that key, and
    the user has approved it;
  \<^item> a derivation is for the decoded path of the request, and only if the policy
    classifies it as safe or the display flag is 1 (the derivation comes before the
    confirmation, which shows the key).
\<close>

theorem key_is_sent_only_if_safe_or_approved:
  "\<exists>dc' evs.
     handler_get_extended_pubkey K E dc pv = Some dc' \<and>
     events dc' = events dc @ evs \<and>
     length (filter is_Send evs) = 1 \<and>
     is_Send (last evs) \<and>
     (\<forall>data sw. Send data sw \<in> set evs \<and> sw \<noteq> SW_OK \<longrightarrow> data = []) \<and>
     (\<forall>data. Send data SW_OK \<in> set evs \<longrightarrow>
        os_global_pin_is_validated E \<and>
        (\<exists>display path buf.
           decode_request K (read_buffer dc) = Inr (display, path, buf) \<and>
           get_serialized_extended_pubkey_at_path E path (BIP32_PUBKEY_VERSION K) = Some data \<and>
           (is_path_safe_for_pubkey_export (MAX_BIP44_ACCOUNT_RECOMMENDED K) path
              (coin_types_of K) = Some True \<or>
            display = 1 \<and>
            ui_display_pubkey E
              (if path = [] then ''(Master key)'' else bip32_path_format E path) True data \<and>
            (\<exists>pre. evs = pre @
               [Display (if path = [] then ''(Master key)'' else bip32_path_format E path)
                  True data,
                Send data SW_OK])))) \<and>
     (\<forall>path version. Derive path version \<in> set evs \<longrightarrow>
        (\<exists>display buf.
           decode_request K (read_buffer dc) = Inr (display, path, buf) \<and>
           (is_path_safe_for_pubkey_export (MAX_BIP44_ACCOUNT_RECOMMENDED K) path
              (coin_types_of K) = Some True \<or> display = 1)))"
proof (cases "os_global_pin_is_validated E")
  case False
  then have "handler_get_extended_pubkey K E dc pv =
      Some (dc\<lparr>events := events dc @ [Send [] SW_SECURITY_STATUS_NOT_SATISFIED]\<rparr>)"
    by (simp add: handler_unfold SEND_SW_def)
  then show ?thesis
    by (intro exI [of _ "dc\<lparr>events := events dc @ [Send [] SW_SECURITY_STATUS_NOT_SATISFIED]\<rparr>"]
        exI [of _ "[Send [] SW_SECURITY_STATUS_NOT_SATISFIED]"]) simp
next
  case True
  note unlocked = this
  show ?thesis
  proof (cases "decode_request K (read_buffer dc)")
    case (Inl e)
    obtain sw buf where e: "e = (sw, buf)" by (cases e)
    with Inl have sw: "sw \<noteq> SW_OK" by (auto dest: decode_request_Inl)
    from Inl e unlocked have "handler_get_extended_pubkey K E dc pv =
        Some (dc\<lparr>read_buffer := buf, events := events dc @ [Send [] sw]\<rparr>)"
      by (simp add: handler_unfold SEND_SW_def)
    with sw Inl show ?thesis
      by (intro exI [of _ "dc\<lparr>read_buffer := buf, events := events dc @ [Send [] sw]\<rparr>"]
          exI [of _ "[Send [] sw]"]) simp
  next
    case (Inr r)
    obtain display path buf where r: "r = (display, path, buf)" by (cases r)
    with Inr have dec: "decode_request K (read_buffer dc) = Inr (display, path, buf)" by simp
    then have d01: "display = 0 \<or> display = 1" by (rule decode_request_Inr)
    define safe where "safe \<longleftrightarrow> is_path_safe_for_pubkey_export (MAX_BIP44_ACCOUNT_RECOMMENDED K) path
        (coin_types_of K) = Some True"
    define label where "label = (if path = [] then ''(Master key)'' else bip32_path_format E path)"
    define ver where "ver = BIP32_PUBKEY_VERSION K"
    define evs where "evs =
       (if \<not> safe \<and> display = 0 then [Send [] SW_NOT_SUPPORTED]
        else Derive path ver #
          (case get_serialized_extended_pubkey_at_path E path ver of
             None \<Rightarrow> [Send [] SW_BAD_STATE]
           | Some key \<Rightarrow>
               (if path = [] then [] else [Format path]) @
               (if display \<noteq> 0 then
                  [Display label (\<not> safe) key,
                   if ui_display_pubkey E label (\<not> safe) key
                   then Send key SW_OK else Send [] SW_DENY]
                else [Send key SW_OK])))"
    have run: "handler_get_extended_pubkey K E dc pv =
        Some (dc\<lparr>read_buffer := buf, events := events dc @ evs\<rparr>)"
      unfolding evs_def safe_def label_def ver_def using unlocked dec
      by (simp add: handler_unfold export_pubkey_events)
    have one: "length (filter is_Send evs) = 1"
      by (simp add: evs_def split: option.splits)
    have last: "is_Send (last evs)"
      by (simp add: evs_def split: option.splits)
    have err: "\<forall>data sw. Send data sw \<in> set evs \<and> sw \<noteq> SW_OK \<longrightarrow> data = []"
      by (auto simp: evs_def split: option.splits if_splits)
    have ok: "get_serialized_extended_pubkey_at_path E path ver = Some data \<and>
           (safe \<or>
            display = 1 \<and> ui_display_pubkey E label True data \<and>
            (\<exists>pre. evs = pre @ [Display label True data, Send data SW_OK]))"
      if "Send data SW_OK \<in> set evs" for data
    proof (cases "get_serialized_extended_pubkey_at_path E path ver")
      case None
      with that show ?thesis by (auto simp: evs_def split: if_splits)
    next
      case (Some key)
      with that have k: "key = data" by (auto simp: evs_def split: if_splits)
      show ?thesis
      proof (cases safe)
        case True
        with Some k show ?thesis by simp
      next
        case False
        with that Some k d01 have d: "display = 1" and ap: "ui_display_pubkey E label True data"
          by (auto simp: evs_def split: if_splits)
        from False Some k d ap have "evs = (Derive path ver # (if path = [] then [] else [Format path])) @
            [Display label True data, Send data SW_OK]"
          by (simp add: evs_def)
        with False Some k d ap show ?thesis by blast
      qed
    qed
    have der: "path' = path \<and> (safe \<or> display = 1)" if "Derive path' version \<in> set evs"
      for path' version
      using that d01 by (auto simp: evs_def split: option.splits if_splits)
    have sent: "\<forall>data. Send data SW_OK \<in> set evs \<longrightarrow>
        os_global_pin_is_validated E \<and>
        (\<exists>display path buf.
           decode_request K (read_buffer dc) = Inr (display, path, buf) \<and>
           get_serialized_extended_pubkey_at_path E path (BIP32_PUBKEY_VERSION K) = Some data \<and>
           (is_path_safe_for_pubkey_export (MAX_BIP44_ACCOUNT_RECOMMENDED K) path
              (coin_types_of K) = Some True \<or>
            display = 1 \<and>
            ui_display_pubkey E
              (if path = [] then ''(Master key)'' else bip32_path_format E path) True data \<and>
            (\<exists>pre. evs = pre @
               [Display (if path = [] then ''(Master key)'' else bip32_path_format E path)
                  True data,
                Send data SW_OK])))"
    proof (intro allI impI conjI)
      fix data assume "Send data SW_OK \<in> set evs"
      from ok [OF this] dec
      show "\<exists>display path buf.
           decode_request K (read_buffer dc) = Inr (display, path, buf) \<and>
           get_serialized_extended_pubkey_at_path E path (BIP32_PUBKEY_VERSION K) = Some data \<and>
           (is_path_safe_for_pubkey_export (MAX_BIP44_ACCOUNT_RECOMMENDED K) path
              (coin_types_of K) = Some True \<or>
            display = 1 \<and>
            ui_display_pubkey E
              (if path = [] then ''(Master key)'' else bip32_path_format E path) True data \<and>
            (\<exists>pre. evs = pre @
               [Display (if path = [] then ''(Master key)'' else bip32_path_format E path)
                  True data,
                Send data SW_OK]))"
        unfolding safe_def label_def ver_def by blast
    qed (rule unlocked)
    have derived: "\<forall>path version. Derive path version \<in> set evs \<longrightarrow>
        (\<exists>display buf.
           decode_request K (read_buffer dc) = Inr (display, path, buf) \<and>
           (is_path_safe_for_pubkey_export (MAX_BIP44_ACCOUNT_RECOMMENDED K) path
              (coin_types_of K) = Some True \<or> display = 1))"
      using der dec unfolding safe_def by blast
    have "events (dc\<lparr>read_buffer := buf, events := events dc @ evs\<rparr>) = events dc @ evs"
      by simp
    with run one last err sent derived show ?thesis by blast
  qed
qed

text \<open>
  The request with display flag 1 and the unsafe path \<open>m/44'/0'/50000000'\<close>, approved
  by the user: the key is sent, and the approval follows from the theorem.
\<close>

theorem key_is_sent_only_if_safe_or_approved_witness:
  "is_path_safe_for_pubkey_export (MAX_BIP44_ACCOUNT_RECOMMENDED sample_constants)
     [0x8000002C, 0x80000000, 0x82FAF080] (coin_types_of sample_constants) = Some False \<and>
   handler_get_extended_pubkey sample_constants (sample_collaborators True True)
     (request [1, 3, 0x80, 0, 0, 0x2C, 0x80, 0, 0, 0, 0x82, 0xFA, 0xF0, 0x80]) 1 =
     Some \<lparr>read_buffer = [],
           events = [Derive [0x8000002C, 0x80000000, 0x82FAF080] 0x0488B21E,
                     Format [0x8000002C, 0x80000000, 0x82FAF080],
                     Display ''m/path'' True ''xpub'',
                     Send ''xpub'' SW_OK]\<rparr> \<and>
   ui_display_pubkey (sample_collaborators True True) ''m/path'' True ''xpub''"
proof -
  let ?K = sample_constants and ?E = "sample_collaborators True True"
  let ?path = "[0x8000002C, 0x80000000, 0x82FAF080] :: u32 list"
  let ?dc = "request [1, 3, 0x80, 0, 0, 0x2C, 0x80, 0, 0, 0, 0x82, 0xFA, 0xF0, 0x80]"
  have unsafe: "is_path_safe_for_pubkey_export (MAX_BIP44_ACCOUNT_RECOMMENDED ?K) ?path
      (coin_types_of ?K) = Some False"
    by (simp add: is_path_safe_char legacy_exception_paths_eq hardened_der_len_def
        sample_constants_def coin_types_of_def)
  have dec: "decode_request ?K (read_buffer ?dc) = Inr (1, ?path, [])"
    by (simp add: decode_request_Cons request_def sample_constants_def read_u32_be_def)
  have fmt: "bip32_path_format ?E ?path = ''m/path''"
    by (simp add: sample_collaborators_def)
  have run: "handler_get_extended_pubkey ?K ?E ?dc 1 =
      Some \<lparr>read_buffer = [],
            events = [Derive ?path 0x0488B21E, Format ?path,
                      Display ''m/path'' True ''xpub'', Send ''xpub'' SW_OK]\<rparr>"
    using unsafe dec
    by (simp add: handler_unfold export_pubkey_events request_def sample_constants_def
        sample_collaborators_def)
  from key_is_sent_only_if_safe_or_approved [of ?K ?E ?dc 1] obtain dc' evs
    where h: "handler_get_extended_pubkey ?K ?E ?dc 1 = Some dc'"
      and e: "events dc' = events ?dc @ evs"
      and s: "\<forall>data. Send data SW_OK \<in> set evs \<longrightarrow>
        os_global_pin_is_validated ?E \<and>
        (\<exists>display path buf.
           decode_request ?K (read_buffer ?dc) = Inr (display, path, buf) \<and>
           get_serialized_extended_pubkey_at_path ?E path (BIP32_PUBKEY_VERSION ?K) = Some data \<and>
           (is_path_safe_for_pubkey_export (MAX_BIP44_ACCOUNT_RECOMMENDED ?K) path
              (coin_types_of ?K) = Some True \<or>
            display = 1 \<and>
            ui_display_pubkey ?E
              (if path = [] then ''(Master key)'' else bip32_path_format ?E path) True data \<and>
            (\<exists>pre. evs = pre @
               [Display (if path = [] then ''(Master key)'' else bip32_path_format ?E path)
                  True data,
                Send data SW_OK])))"
    by blast
  from h e run have "Send ''xpub'' SW_OK \<in> set evs"
    by (auto simp: request_def)
  with s dec unsafe fmt have "ui_display_pubkey ?E ''m/path'' True ''xpub''"
    by auto
  with unsafe run show ?thesis by simp
qed

end
